theory Spec2Isabelle
  imports Complex_Main
begin

section \<open>The curve adapter\<close>

text \<open>
  The package \<^verbatim>\<open>vess\<close> orchestrates two external libraries, gnark-crypto and herumi's
  bls, whose code is not part of the sources. Their group element types are type
  parameters here: \<open>'g1\<close> and \<open>'g2\<close> are additive abelian groups (point addition and
  subtraction are \<open>+\<close> and \<open>-\<close>, the point at infinity is \<open>0\<close>), \<open>'gt\<close> is the pairing's
  target type and \<open>'f\<close> is herumi's scalar field \<^verbatim>\<open>bls.Fr\<close>. A gnark \<^verbatim>\<open>fr.Element\<close> is
  represented by the integer it stands for, a \<^verbatim>\<open>big.Int\<close> by an \<open>int\<close>. The two libraries'
  (de)serialisations of one point are the identity.

  The remaining library routines are the fields of the record \<open>adapter\<close>; nothing is
  known of them but what a theorem assumes.
\<close>

text \<open>
  An error value returned by a library routine, and the ways \<^verbatim>\<open>Test\<close> and \<^verbatim>\<open>Init\<close> end
  abnormally: \<^verbatim>\<open>panic\<close> with a message, \<^verbatim>\<open>panic\<close> with a library error, and the run-time
  panic of an index out of range.
\<close>

datatype lib_error = InitError | ETHmodeError | InterpolationError

datatype panic = Panic string | PanicError lib_error | IndexOutOfRange

text \<open>
  \<open>blsInit\<close> and \<open>blsSetETHmode\<close> say whether \<^verbatim>\<open>bls.Init\<close> and \<^verbatim>\<open>bls.SetETHmode\<close> return
  without error. \<open>ToBigInt\<close> is \<^verbatim>\<open>fr.Element.ToBigInt\<close>, which in the version of
  gnark-crypto the module requires need not return the represented integer itself.
\<close>

record ('g1, 'g2, 'gt, 'f) adapter =
  blsInit :: bool
  blsSetETHmode :: bool
  Generators :: "'g1 \<times> 'g2"
  Pair :: "'g1 \<Rightarrow> 'g2 \<Rightarrow> 'gt"
  GTMul :: "'gt \<Rightarrow> 'gt \<Rightarrow> 'gt"
  HashAndMapToSignature :: "string \<Rightarrow> 'g2"
  ToBigInt :: "int \<Rightarrow> int"
  G2Mul :: "'g2 \<Rightarrow> 'f \<Rightarrow> 'g2"

text \<open>
  Modelled from the spec: scalar multiplication of the curve adapter, gnark's
  \<^verbatim>\<open>p.ScalarMultiplication(&a, s)\<close>, which sets \<open>p\<close> to the \<open>s\<close>-fold sum of \<open>a\<close>.
\<close>

definition ScalarMultiplication :: "'a::ab_group_add \<Rightarrow> int \<Rightarrow> 'a" where
  "ScalarMultiplication a s =
     (if 0 \<le> s then ((+) a ^^ nat s) 0 else - (((+) a ^^ nat (- s)) 0))"

text \<open>
  Modelled from the spec: herumi's \<^verbatim>\<open>SecretKey.Sign\<close>, a standard BLS signature: the
  hash of the message, multiplied by the secret.
\<close>

definition SecretKey_Sign ::
  "('g1, 'g2::ab_group_add, 'gt, 'f) adapter \<Rightarrow> int \<Rightarrow> string \<Rightarrow> 'g2"
where
  "SecretKey_Sign L sec msg = ScalarMultiplication (HashAndMapToSignature L msg) sec"

text \<open>
  Modelled from the spec: herumi's \<^verbatim>\<open>bls.FrEvaluatePolynomial(&y, cVec, &x)\<close>, the value
  at \<open>x\<close> of the polynomial with coefficients \<open>cVec\<close>, constant term first.
\<close>

fun FrEvaluatePolynomial :: "'f::field list \<Rightarrow> 'f \<Rightarrow> 'f" where
  "FrEvaluatePolynomial [] x = 0"
| "FrEvaluatePolynomial (c # cVec) x = c + x * FrEvaluatePolynomial cVec x"

text \<open>
  Modelled from the spec: the Lagrange basis coefficient at \<open>0\<close> of the \<open>i\<close>-th of the
  abscissae \<open>xVec\<close>, the product over \<open>j \<noteq> i\<close> of \<open>x\<^sub>j / (x\<^sub>j - x\<^sub>i)\<close>.
\<close>

definition lagrange_coefficient :: "'f::field list \<Rightarrow> nat \<Rightarrow> 'f" where
  "lagrange_coefficient xVec i =
     prod_list (map (\<lambda>j. xVec ! j / (xVec ! j - xVec ! i))
                    (filter (\<lambda>j. j \<noteq> i) [0..<length xVec]))"

text \<open>
  Modelled from the spec: herumi's \<^verbatim>\<open>bls.G2LagrangeInterpolation(&out, xVec, yVec)\<close>,
  Lagrange interpolation in the exponent: the sum of the points \<open>yVec[i]\<close>, each
  multiplied by its basis coefficient. The routine is given the two vectors and nothing
  else. Its error, which the source tests with \<^verbatim>\<open>err != nil\<close>, stands for the inputs the
  library does not accept: an empty \<open>xVec\<close>, vectors of different lengths, and, for two
  points or more, a zero or a repeated abscissa (for a repeated one the coefficient is
  not defined). For a single point the result is that point, whatever its abscissa.
\<close>

definition G2LagrangeInterpolation ::
  "('g1, 'g2::ab_group_add, 'gt, 'f::field) adapter \<Rightarrow> 'f list \<Rightarrow> 'g2 list \<Rightarrow> lib_error + 'g2"
where
  "G2LagrangeInterpolation L xVec yVec =
     (if xVec = [] then Inl InterpolationError
      else if length xVec \<noteq> length yVec then Inl InterpolationError
      else if length xVec = 1 then Inr (yVec ! 0)
      else if 0 \<in> set xVec \<or> \<not> distinct xVec then Inl InterpolationError
      else Inr (sum_list (map (\<lambda>i. G2Mul L (yVec ! i) (lagrange_coefficient xVec i))
                              [0..<length xVec])))"

section \<open>Package state, initialisation and the exported operations\<close>

text \<open>The package-level variables \<^verbatim>\<open>g1\<close> and \<^verbatim>\<open>g2\<close>, and the struct \<^verbatim>\<open>VESS\<close>.\<close>

record ('g1, 'g2) globals =
  g1 :: 'g1
  g2 :: 'g2

record ('g1, 'g2) VESS =
  VESS_g1 :: 'g1
  VESS_g2 :: 'g2

text \<open>\<^verbatim>\<open>Init\<close> (vess.go): a library error is a panic; otherwise the generators are fetched.\<close>

definition Init ::
  "('g1, 'g2, 'gt, 'f) adapter \<Rightarrow> ('g1, 'g2) globals \<Rightarrow> panic + ('g1, 'g2) globals"
where
  "Init L G =
     (if \<not> blsInit L then Inl (PanicError InitError)
      else if \<not> blsSetETHmode L then Inl (PanicError ETHmodeError)
      else Inr (G\<lparr>g1 := fst (Generators L), g2 := snd (Generators L)\<rparr>))"

text \<open>\<^verbatim>\<open>New\<close>: a library error is returned; otherwise the generators are stored in the
  package variables and copied into the new \<^verbatim>\<open>VESS\<close> value.\<close>

definition New ::
  "('g1, 'g2, 'gt, 'f) adapter \<Rightarrow> ('g1, 'g2) globals \<Rightarrow>
     (lib_error + ('g1, 'g2) VESS) \<times> ('g1, 'g2) globals"
where
  "New L G =
     (if \<not> blsInit L then (Inl InitError, G)
      else if \<not> blsSetETHmode L then (Inl ETHmodeError, G)
      else
        (let G' = G\<lparr>g1 := fst (Generators L), g2 := snd (Generators L)\<rparr>
         in (Inr \<lparr>VESS_g1 = g1 G', VESS_g2 = g2 G'\<rparr>, G')))"

text \<open>
  The exported operations. Each has an empty parameter list, an empty result list and
  an empty body: as a state transformer it returns the unit value and the state it was
  given (the package variables, and for a method its receiver).
\<close>

definition Sign :: "('g1, 'g2) globals \<Rightarrow> unit \<times> ('g1, 'g2) globals" where
  "Sign G = ((), G)"

definition Verify :: "('g1, 'g2) globals \<Rightarrow> unit \<times> ('g1, 'g2) globals" where
  "Verify G = ((), G)"

definition Adjudicate :: "('g1, 'g2) globals \<Rightarrow> unit \<times> ('g1, 'g2) globals" where
  "Adjudicate G = ((), G)"

definition VESS_Sign ::
  "('g1, 'g2) VESS \<Rightarrow> ('g1, 'g2) globals \<Rightarrow> unit \<times> ('g1, 'g2) VESS \<times> ('g1, 'g2) globals"
where
  "VESS_Sign v G = ((), v, G)"

definition VESS_Verify ::
  "('g1, 'g2) VESS \<Rightarrow> ('g1, 'g2) globals \<Rightarrow> unit \<times> ('g1, 'g2) VESS \<times> ('g1, 'g2) globals"
where
  "VESS_Verify v G = ((), v, G)"

definition VESS_Adjudicate ::
  "('g1, 'g2) VESS \<Rightarrow> ('g1, 'g2) globals \<Rightarrow> unit \<times> ('g1, 'g2) VESS \<times> ('g1, 'g2) globals"
where
  "VESS_Adjudicate v G = ((), v, G)"

section \<open>The demonstration routine \<^verbatim>\<open>Test\<close>\<close>

text \<open>
  \<^verbatim>\<open>Test\<close> is one straight-line routine. Its sections are separate definitions here, in
  the order of the source; \<open>Test_vess\<close> and \<open>Test\<close> below put them together again with
  the constants of the source. The values drawn at random (\<^verbatim>\<open>SetRandom\<close>,
  \<^verbatim>\<open>SetByCSPRNG\<close>) are arguments. The errors that the source ignores (of \<^verbatim>\<open>SetRandom\<close>,
  \<^verbatim>\<open>SetDecString\<close>, \<^verbatim>\<open>Unmarshal\<close>, \<^verbatim>\<open>Deserialize\<close>, \<^verbatim>\<open>Pair\<close> and
  \<^verbatim>\<open>FrEvaluatePolynomial\<close>) do not occur here.

  The variables \<^verbatim>\<open>omega\<close> and \<^verbatim>\<open>mu\<close>, which the source updates in place, are the two
  fields of a record.
\<close>

record 'g2 VESSignature =
  omega :: 'g2
  mu :: 'g2

text \<open>
  Keys (vess.go, lines 51 to 76). \<open>conv\<close> is the conversion applied to the adjudicator's secret:
  \<^verbatim>\<open>adjSKey.ToBigInt\<close> in vess.go, \<^verbatim>\<open>adjSKey.ToBigIntRegular\<close> (the identity on the
  represented integer) in the later version. The result is
  \<open>(x, aPKey, adjSKeyInt, adjPKeyG1, adjPKeyG2)\<close>.
\<close>

definition Test_keys ::
  "(int \<Rightarrow> int) \<Rightarrow> ('g1::ab_group_add, 'g2::ab_group_add, 'gt, 'f) adapter \<Rightarrow>
     ('g1, 'g2) globals \<Rightarrow> int \<Rightarrow> int \<Rightarrow> int \<times> 'g1 \<times> int \<times> 'g1 \<times> 'g2"
where
  "Test_keys conv L G aSKey adjSKey =
     (let x = ToBigInt L aSKey;
          aPKey = ScalarMultiplication (g1 G) x;
          adjSKeyInt = conv adjSKey;
          adjPKeyG1 = ScalarMultiplication (g1 G) adjSKeyInt;
          adjPKeyG2 = ScalarMultiplication (g2 G) adjSKeyInt
      in (x, aPKey, adjSKeyInt, adjPKeyG1, adjPKeyG2))"

text \<open>
  The plain signature \<^verbatim>\<open>sigma\<close> (vess.go, lines 78 to 87): the secret key \<^verbatim>\<open>ask\<close> is set
  to \<open>x\<close> through its decimal string, the message is signed, and the signature is
  carried over to gnark's type.
\<close>

definition Test_sign ::
  "('g1, 'g2::ab_group_add, 'gt, 'f) adapter \<Rightarrow> string \<Rightarrow> int \<Rightarrow> 'g2"
where
  "Test_sign L msg x =
     (let ask = x;
          asig = SecretKey_Sign L ask msg;
          sigma = asig
      in sigma)"

text \<open>Blinding (lines 89 to 111): \<^verbatim>\<open>r\<close>, \<^verbatim>\<open>mu\<close>, \<^verbatim>\<open>sigma_2\<close> and \<^verbatim>\<open>omega\<close>.\<close>

definition Test_encrypt ::
  "('g1, 'g2::ab_group_add, 'gt, 'f) adapter \<Rightarrow> ('g1, 'g2) globals \<Rightarrow> 'g2 \<Rightarrow> 'g2 \<Rightarrow> int \<Rightarrow>
     'g2 VESSignature"
where
  "Test_encrypt L G adjPKeyG2 sigma rel =
     (let r = ToBigInt L rel;
          mu' = ScalarMultiplication (g2 G) r;
          sigma_2 = ScalarMultiplication adjPKeyG2 r;
          omega' = sigma + sigma_2
      in \<lparr>omega = omega', mu = mu'\<rparr>)"

text \<open>Verification (lines 113 to 141): the three pairings, their comparison, and the panic.\<close>

definition Test_verify ::
  "('g1, 'g2, 'gt, 'f) adapter \<Rightarrow> ('g1, 'g2) globals \<Rightarrow> string \<Rightarrow> 'g1 \<Rightarrow> 'g1 \<Rightarrow>
     'g2 VESSignature \<Rightarrow> panic + 'g2 VESSignature"
where
  "Test_verify L G msg aPKey adjPKeyG1 ves =
     (let pair0 = Pair L (g1 G) (omega ves);
          h = HashAndMapToSignature L msg;
          pair1 = Pair L aPKey h;
          pair2 = Pair L adjPKeyG1 (mu ves);
          pair1 = GTMul L pair1 pair2
      in if pair0 \<noteq> pair1 then Inl (Panic ''Invalid signature'') else Inr ves)"

text \<open>Adjudication (lines 143 to 146): \<^verbatim>\<open>mu\<close> is overwritten, then \<^verbatim>\<open>omega\<close>.\<close>

definition Test_adjudicate :: "'g2::ab_group_add VESSignature \<Rightarrow> int \<Rightarrow> 'g2 VESSignature" where
  "Test_adjudicate ves adjSKeyInt =
     (let ves = ves\<lparr>mu := ScalarMultiplication (mu ves) adjSKeyInt\<rparr>;
          ves = ves\<lparr>omega := omega ves - mu ves\<rparr>
      in ves)"

text \<open>
  The routine up to the comparison of the recovered signature. The result holds the
  encrypted signature as it was before adjudication (the later version keeps it in
  \<^verbatim>\<open>origOmega\<close> and \<^verbatim>\<open>origMu\<close>) and the two variables as they are afterwards.
\<close>

definition Test_single ::
  "(int \<Rightarrow> int) \<Rightarrow> ('g1::ab_group_add, 'g2::ab_group_add, 'gt, 'f) adapter \<Rightarrow>
     ('g1, 'g2) globals \<Rightarrow> string \<Rightarrow> int \<Rightarrow> int \<Rightarrow> int \<Rightarrow>
     panic + 'g2 VESSignature \<times> 'g2 VESSignature"
where
  "Test_single conv L G msg aSKey adjSKey rel =
     (let (x, aPKey, adjSKeyInt, adjPKeyG1, adjPKeyG2) = Test_keys conv L G aSKey adjSKey;
          sigma = Test_sign L msg x;
          orig = Test_encrypt L G adjPKeyG2 sigma rel
      in case Test_verify L G msg aPKey adjPKeyG1 orig of
           Inl e \<Rightarrow> Inl e
         | Inr ves \<Rightarrow>
             (let ves = Test_adjudicate ves adjSKeyInt
              in if sigma \<noteq> omega ves
                 then Inl (Panic ''Recovered signature does not match original signature'')
                 else Inr (orig, ves)))"

text \<open>\<^verbatim>\<open>Test\<close> of vess.go.\<close>

definition Test_vess ::
  "('g1::ab_group_add, 'g2::ab_group_add, 'gt, 'f) adapter \<Rightarrow> ('g1, 'g2) globals \<Rightarrow>
     int \<Rightarrow> int \<Rightarrow> int \<Rightarrow> panic + unit"
where
  "Test_vess L G aSKey adjSKey rel =
     (case Test_single (ToBigInt L) L G ''Hello, World'' aSKey adjSKey rel of
        Inl e \<Rightarrow> Inl e
      | Inr _ \<Rightarrow> Inr ())"

text \<open>
  The key polynomial and the shares. \<open>csprng k\<close> is the value of the \<open>k\<close>-th call of
  \<^verbatim>\<open>SetByCSPRNG\<close>. Writing \<^verbatim>\<open>adjKeyPoly[0]\<close> into a slice of length 0 is a run-time panic.
\<close>

definition Test_split :: "'f::field \<Rightarrow> (nat \<Rightarrow> 'f) \<Rightarrow> nat \<Rightarrow> nat \<Rightarrow> panic + 'f list" where
  "Test_split adjsk csprng minShares totalShares =
     (if minShares = 0 then Inl IndexOutOfRange
      else
        (let adjKeyPoly = adjsk # map csprng [0..<minShares - 1]
         in Inr (map (\<lambda>i. FrEvaluatePolynomial adjKeyPoly (of_nat (i + 1)))
                     [0..<totalShares])))"

text \<open>
  The partial results \<^verbatim>\<open>res\<close>. The source takes the shares at the positions
  \<open>0, \<dots>, minShares - 1\<close>; here the positions are the list \<open>sel\<close>. Reading
  \<^verbatim>\<open>shares[i]\<close> beyond the slice is a run-time panic.
\<close>

definition Test_partials ::
  "('g1, 'g2, 'gt, 'f) adapter \<Rightarrow> 'g2 \<Rightarrow> 'f list \<Rightarrow> nat list \<Rightarrow> panic + 'g2 list"
where
  "Test_partials L mub shares sel =
     (if list_ex (\<lambda>i. length shares \<le> i) sel then Inl IndexOutOfRange
      else Inr (map (\<lambda>i. G2Mul L mub (shares ! i)) sel))"

text \<open>The abscissae \<^verbatim>\<open>xs\<close>, the interpolation, and the panic on its error.\<close>

definition Test_reconstruct ::
  "('g1, 'g2::ab_group_add, 'gt, 'f::field) adapter \<Rightarrow> nat list \<Rightarrow> 'g2 list \<Rightarrow> panic + 'g2"
where
  "Test_reconstruct L sel res =
     (let xs = map (\<lambda>i. of_nat (i + 1)) sel
      in case G2LagrangeInterpolation L xs res of
           Inl err \<Rightarrow> Inl (PanicError err)
         | Inr mub \<Rightarrow> Inr mub)"

text \<open>The threshold part: shares, partial results, interpolation, final subtraction.\<close>

definition Test_threshold ::
  "('g1, 'g2::ab_group_add, 'gt, 'f::field) adapter \<Rightarrow> (nat \<Rightarrow> 'f) \<Rightarrow> int \<Rightarrow>
     'g2 VESSignature \<Rightarrow> nat \<Rightarrow> nat \<Rightarrow> nat list \<Rightarrow> panic + 'g2"
where
  "Test_threshold L csprng adjSKey orig minShares totalShares sel =
     (let adjsk = of_int adjSKey
      in case Test_split adjsk csprng minShares totalShares of
           Inl e \<Rightarrow> Inl e
         | Inr shares \<Rightarrow>
             (let mub = mu orig
              in case Test_partials L mub shares sel of
                   Inl e \<Rightarrow> Inl e
                 | Inr res \<Rightarrow>
                     (case Test_reconstruct L sel res of
                        Inl e \<Rightarrow> Inl e
                      | Inr mub \<Rightarrow> Inr (omega orig - mub))))"

text \<open>\<^verbatim>\<open>Test\<close> of the later version: the result is the signature recovered from the shares.\<close>

definition Test ::
  "('g1::ab_group_add, 'g2::ab_group_add, 'gt, 'f::field) adapter \<Rightarrow> ('g1, 'g2) globals \<Rightarrow>
     int \<Rightarrow> int \<Rightarrow> int \<Rightarrow> (nat \<Rightarrow> 'f) \<Rightarrow> panic + 'g2"
where
  "Test L G aSKey adjSKey rel csprng =
     (case Test_single (\<lambda>k. k) L G ''Hello, World'' aSKey adjSKey rel of
        Inl e \<Rightarrow> Inl e
      | Inr (orig, _) \<Rightarrow> Test_threshold L csprng adjSKey orig 3 10 [0..<3])"

section \<open>The library's process-wide configuration\<close>

text \<open>
  \<^verbatim>\<open>bls.Init\<close>, \<^verbatim>\<open>bls.SetETHmode\<close>, \<^verbatim>\<open>bls.VerifyPublicKeyOrder\<close> and
  \<^verbatim>\<open>bls.VerifySignatureOrder\<close> set state of the herumi library that is shared by the whole
  process and that its later calls read. Here this state is a record, and the state of
  the process is the package variables together with it.
\<close>

datatype bls_curve = BLS12_381

datatype bls_eth_mode = EthModeDraft07

record bls_config =
  curve :: "bls_curve option"
  ethMode :: "bls_eth_mode option"
  verifyPublicKeyOrder :: bool
  verifySignatureOrder :: bool

record ('g1, 'g2) process =
  pkg :: "('g1, 'g2) globals"
  bls :: bls_config

text \<open>\<^verbatim>\<open>Init\<close> and \<^verbatim>\<open>New\<close> once more, with the calls that configure the library.\<close>

definition Init_process ::
  "('g1, 'g2, 'gt, 'f) adapter \<Rightarrow> ('g1, 'g2) process \<Rightarrow> panic + ('g1, 'g2) process"
where
  "Init_process L P =
     (if \<not> blsInit L then Inl (PanicError InitError)
      else
        (let P = P\<lparr>bls := (bls P)\<lparr>curve := Some BLS12_381\<rparr>\<rparr>
         in if \<not> blsSetETHmode L then Inl (PanicError ETHmodeError)
            else
              (let P = P\<lparr>bls := (bls P)\<lparr>ethMode := Some EthModeDraft07\<rparr>\<rparr>;
                   P = P\<lparr>bls := (bls P)\<lparr>verifyPublicKeyOrder := True\<rparr>\<rparr>;
                   P = P\<lparr>bls := (bls P)\<lparr>verifySignatureOrder := True\<rparr>\<rparr>;
                   P = P\<lparr>pkg := (pkg P)\<lparr>g1 := fst (Generators L), g2 := snd (Generators L)\<rparr>\<rparr>
               in Inr P)))"

definition New_process ::
  "('g1, 'g2, 'gt, 'f) adapter \<Rightarrow> ('g1, 'g2) process \<Rightarrow>
     (lib_error + ('g1, 'g2) VESS) \<times> ('g1, 'g2) process"
where
  "New_process L P =
     (if \<not> blsInit L then (Inl InitError, P)
      else
        (let P = P\<lparr>bls := (bls P)\<lparr>curve := Some BLS12_381\<rparr>\<rparr>
         in if \<not> blsSetETHmode L then (Inl ETHmodeError, P)
            else
              (let P = P\<lparr>bls := (bls P)\<lparr>ethMode := Some EthModeDraft07\<rparr>\<rparr>;
                   P = P\<lparr>bls := (bls P)\<lparr>verifyPublicKeyOrder := True\<rparr>\<rparr>;
                   P = P\<lparr>bls := (bls P)\<lparr>verifySignatureOrder := True\<rparr>\<rparr>;
                   P = P\<lparr>pkg := (pkg P)\<lparr>g1 := fst (Generators L), g2 := snd (Generators L)\<rparr>\<rparr>
               in (Inr \<lparr>VESS_g1 = g1 (pkg P), VESS_g2 = g2 (pkg P)\<rparr>, P))))"


section \<open>What the theorems assume of the adapter\<close>

text \<open>
  The pairing is bilinear: additive in its second argument, and a scalar moves from one
  argument to the other.
\<close>

definition bilinear :: "('g1::ab_group_add, 'g2::ab_group_add, 'gt, 'f) adapter \<Rightarrow> bool" where
  "bilinear L \<longleftrightarrow>
     (\<forall>P A B. Pair L P (A + B) = GTMul L (Pair L P A) (Pair L P B)) \<and>
     (\<forall>P Q s. Pair L (ScalarMultiplication P s) Q = Pair L P (ScalarMultiplication Q s))"

text \<open>
  \<^verbatim>\<open>bls.G2Mul\<close> makes the second group a vector space over the scalar field.
\<close>

definition scalar_action :: "('g1, 'g2::ab_group_add, 'gt, 'f::field) adapter \<Rightarrow> bool" where
  "scalar_action L \<longleftrightarrow>
     (\<forall>P a b. G2Mul L P (a + b) = G2Mul L P a + G2Mul L P b) \<and>
     (\<forall>P a b. G2Mul L (G2Mul L P a) b = G2Mul L P (a * b)) \<and>
     (\<forall>P. G2Mul L P 1 = P)"

text \<open>
  The pairing is non-degenerate and the target group has cancellation: with one
  argument fixed and not the identity, the pairing is injective in the other.
\<close>

definition nondegenerate :: "('g1::ab_group_add, 'g2::ab_group_add, 'gt, 'f) adapter \<Rightarrow> bool" where
  "nondegenerate L \<longleftrightarrow>
     (\<forall>P Q Q'. P \<noteq> 0 \<and> Pair L P Q = Pair L P Q' \<longrightarrow> Q = Q') \<and>
     (\<forall>P P' Q. Q \<noteq> 0 \<and> Pair L P Q = Pair L P' Q \<longrightarrow> P = P') \<and>
     (\<forall>u v w. GTMul L u v = GTMul L u w \<longrightarrow> v = w) \<and>
     (\<forall>u v w. GTMul L v u = GTMul L w u \<longrightarrow> v = w)"

text \<open>
  The basis coefficient of a node \<open>i\<close> of a finite set of nodes, used in the proofs: for
  a list of pairwise different abscissae it is \<open>lagrange_coefficient\<close>.
\<close>

definition basis_at_zero :: "'f::field set \<Rightarrow> 'f \<Rightarrow> 'f" where
  "basis_at_zero S i = (\<Prod>j\<in>S - {i}. j / (j - i))"

text \<open>
  A small adapter on which the definitions can be run: every group is the additive
  group of the rationals, the scalar field is the rationals, the pairing is the product
  and the product of the target group is the sum.
\<close>

definition toy :: "(rat, rat, rat, rat) adapter" where
  "toy = \<lparr>blsInit = True, blsSetETHmode = True, Generators = (1, 1),
          Pair = (\<lambda>P Q. P * Q), GTMul = (\<lambda>a b. a + b),
          HashAndMapToSignature = (\<lambda>msg. of_nat (length msg) + 1),
          ToBigInt = (\<lambda>k. (k * 2) mod 7),
          G2Mul = (\<lambda>P a. P * a)\<rparr>"

definition toyG :: "(rat, rat) globals" where
  "toyG = \<lparr>g1 = 1, g2 = 1\<rparr>"

definition toy_csprng :: "nat \<Rightarrow> rat" where
  "toy_csprng k = 7 - 5 * of_nat k"



section \<open>Scalar multiplication\<close>

lemma SM_zero: "ScalarMultiplication a 0 = 0"
  by (simp add: ScalarMultiplication_def)

lemma SM_succ: "ScalarMultiplication a (s + 1) = ScalarMultiplication a s + a"
proof -
  consider "0 \<le> s" | "s = - 1" | "s < - 1" by linarith
  then show ?thesis
  proof cases
    case 1
    then have "nat (s + 1) = Suc (nat s)" by simp
    with 1 show ?thesis by (simp add: ScalarMultiplication_def add.commute)
  next
    case 2
    then show ?thesis by (simp add: ScalarMultiplication_def)
  next
    case 3
    then have "nat (- s) = Suc (nat (- (s + 1)))" by simp
    with 3 show ?thesis by (simp add: ScalarMultiplication_def)
  qed
qed

lemma SM_pred: "ScalarMultiplication a (s - 1) = ScalarMultiplication a s - a"
  using SM_succ [of a "s - 1"] by (simp add: algebra_simps)

lemma SM_one: "ScalarMultiplication a 1 = a"
  using SM_succ [of a 0] by (simp add: SM_zero)

lemma SM_add: "ScalarMultiplication a (s + t) = ScalarMultiplication a s + ScalarMultiplication a t"
proof (induction t rule: int_induct [where k = 0])
  case base
  show ?case by (simp add: SM_zero)
next
  case (step1 i)
  have "ScalarMultiplication a (s + (i + 1)) = ScalarMultiplication a ((s + i) + 1)"
    by (simp only: add.assoc)
  also have "\<dots> = ScalarMultiplication a (s + i) + a"
    by (rule SM_succ)
  also have "\<dots> = ScalarMultiplication a s + (ScalarMultiplication a i + a)"
    by (simp only: step1.IH add.assoc)
  also have "\<dots> = ScalarMultiplication a s + ScalarMultiplication a (i + 1)"
    by (simp only: SM_succ)
  finally show ?case .
next
  case (step2 i)
  have "ScalarMultiplication a (s + (i - 1)) = ScalarMultiplication a ((s + i) - 1)"
    by (simp only: add_diff_eq)
  also have "\<dots> = ScalarMultiplication a (s + i) - a"
    by (rule SM_pred)
  also have "\<dots> = ScalarMultiplication a s + (ScalarMultiplication a i - a)"
    by (simp only: step2.IH add_diff_eq)
  also have "\<dots> = ScalarMultiplication a s + ScalarMultiplication a (i - 1)"
    by (simp only: SM_pred)
  finally show ?case .
qed

lemma SM_mult: "ScalarMultiplication (ScalarMultiplication a s) t = ScalarMultiplication a (s * t)"
proof (induction t rule: int_induct [where k = 0])
  case base
  show ?case by (simp add: SM_zero)
next
  case (step1 i)
  have "ScalarMultiplication (ScalarMultiplication a s) (i + 1)
        = ScalarMultiplication a (s * i) + ScalarMultiplication a s"
    by (simp only: SM_succ step1.IH)
  also have "\<dots> = ScalarMultiplication a (s * i + s)"
    by (simp only: SM_add)
  also have "s * i + s = s * (i + 1)"
    by (simp add: algebra_simps)
  finally show ?case .
next
  case (step2 i)
  have "ScalarMultiplication a (s * (i - 1)) + ScalarMultiplication a s
        = ScalarMultiplication a (s * (i - 1) + s)"
    by (simp only: SM_add)
  also have "s * (i - 1) + s = s * i"
    by (simp add: algebra_simps)
  finally have "ScalarMultiplication a (s * (i - 1))
        = ScalarMultiplication a (s * i) - ScalarMultiplication a s"
    by (simp add: algebra_simps)
  then show ?case
    by (simp only: SM_pred step2.IH)
qed

lemma SM_commute:
  "ScalarMultiplication (ScalarMultiplication a s) t = ScalarMultiplication (ScalarMultiplication a t) s"
  by (simp add: SM_mult mult.commute)

lemma SM_ring: "ScalarMultiplication (a::'a::ring_1) s = a * of_int s"
proof (induction s rule: int_induct [where k = 0])
  case base
  show ?case by (simp add: SM_zero)
next
  case (step1 i)
  have "ScalarMultiplication a (i + 1) = a * of_int i + a"
    by (simp only: SM_succ step1.IH)
  then show ?case by (simp add: algebra_simps)
next
  case (step2 i)
  have "ScalarMultiplication a (i - 1) = a * of_int i - a"
    by (simp only: SM_pred step2.IH)
  then show ?case by (simp add: algebra_simps)
qed

lemma Test_sign_eq: "Test_sign L msg x = ScalarMultiplication (HashAndMapToSignature L msg) x"
  by (simp add: Test_sign_def SecretKey_Sign_def Let_def)

section \<open>The toy adapter\<close>

lemma toy_bilinear: "bilinear toy"
  by (simp add: bilinear_def toy_def SM_ring algebra_simps)

lemma toy_scalar_action: "scalar_action toy"
  by (simp add: scalar_action_def toy_def algebra_simps)

lemma toy_nondegenerate: "nondegenerate toy"
  by (auto simp: nondegenerate_def toy_def)

lemma toy_characteristic: "\<forall>k. 0 < k \<and> k \<le> n \<longrightarrow> (of_nat k :: rat) \<noteq> 0"
  by simp

lemma toy_encrypt:
  "Test_encrypt toy toyG (ScalarMultiplication (g2 toyG) 5) (Test_sign toy ''Hi'' 3) 4
   = \<lparr>omega = 14, mu = 1\<rparr>"
  by (simp add: Test_encrypt_def Test_sign_eq toy_def toyG_def SM_ring)

section \<open>Encryption, verification and adjudication\<close>

lemma honest_pairing_equation:
  assumes "bilinear L"
  shows "Pair L P (ScalarMultiplication h x + ScalarMultiplication (ScalarMultiplication Q a) r)
         = GTMul L (Pair L (ScalarMultiplication P x) h)
                   (Pair L (ScalarMultiplication P a) (ScalarMultiplication Q r))"
proof -
  have add: "\<And>P A B. Pair L P (A + B) = GTMul L (Pair L P A) (Pair L P B)"
    and move: "\<And>P Q s. Pair L (ScalarMultiplication P s) Q = Pair L P (ScalarMultiplication Q s)"
    using assms by (simp_all add: bilinear_def)
  have "ScalarMultiplication (ScalarMultiplication Q a) r
        = ScalarMultiplication (ScalarMultiplication Q r) a"
    by (rule SM_commute)
  then show ?thesis
    by (simp only: add move)
qed

lemma honest_equation:
  assumes "bilinear L"
    and "ves = Test_encrypt L G (ScalarMultiplication (g2 G) a) (Test_sign L msg x) rel"
  shows "Pair L (g1 G) (omega ves)
         = GTMul L (Pair L (ScalarMultiplication (g1 G) x) (HashAndMapToSignature L msg))
                   (Pair L (ScalarMultiplication (g1 G) a) (mu ves))"
  using honest_pairing_equation [OF assms(1), of "g1 G" "HashAndMapToSignature L msg" x "g2 G" a
      "ToBigInt L rel"] assms(2)
  by (simp add: Test_encrypt_def Test_sign_eq Let_def)

lemma adjudicate_fields:
  "Test_adjudicate ves k
   = \<lparr>omega = omega ves - ScalarMultiplication (mu ves) k, mu = ScalarMultiplication (mu ves) k\<rparr>"
  by (simp add: Test_adjudicate_def Let_def)

lemma adjudicate_encrypt:
  "omega (Test_adjudicate
            (Test_encrypt L G (ScalarMultiplication (g2 G) k) (Test_sign L msg x) rel) k)
   = Test_sign L msg x"
  by (simp add: adjudicate_fields Test_encrypt_def Let_def SM_mult mult.commute)

text \<open>
  With a bilinear pairing the routine reaches its end: neither comparison panics.
\<close>

lemma Test_single_succeeds:
  assumes "bilinear L"
  shows "Test_single conv L G msg aSKey adjSKey rel
         = Inr (Test_encrypt L G (ScalarMultiplication (g2 G) (conv adjSKey))
                   (Test_sign L msg (ToBigInt L aSKey)) rel,
                Test_adjudicate
                  (Test_encrypt L G (ScalarMultiplication (g2 G) (conv adjSKey))
                     (Test_sign L msg (ToBigInt L aSKey)) rel) (conv adjSKey))"
proof -
  have "Test_verify L G msg (ScalarMultiplication (g1 G) (ToBigInt L aSKey))
           (ScalarMultiplication (g1 G) (conv adjSKey))
           (Test_encrypt L G (ScalarMultiplication (g2 G) (conv adjSKey))
              (Test_sign L msg (ToBigInt L aSKey)) rel)
        = Inr (Test_encrypt L G (ScalarMultiplication (g2 G) (conv adjSKey))
              (Test_sign L msg (ToBigInt L aSKey)) rel)"
    using honest_pairing_equation [OF assms, of "g1 G" "HashAndMapToSignature L msg"
        "ToBigInt L aSKey" "g2 G" "conv adjSKey" "ToBigInt L rel"]
    by (simp add: Test_verify_def Test_encrypt_def Test_sign_eq Let_def)
  then show ?thesis
    by (simp add: Test_single_def Test_keys_def Let_def adjudicate_encrypt)
qed

lemma Test_vess_succeeds:
  assumes "bilinear L"
  shows "Test_vess L G aSKey adjSKey rel = Inr ()"
  by (simp add: Test_vess_def Test_single_succeeds [OF assms])

text \<open>
  C1. An encrypted signature made the way \<^verbatim>\<open>Test\<close> makes it passes the verification. For
  every message, signer secret \<open>x\<close>, adjudicator secret \<open>a\<close> and randomiser \<open>r\<close>, with
  the public keys \<open>x\<close> and \<open>a\<close> times the generator of the first group and \<open>a\<close> times the
  generator of the second, \<open>omega\<close> is \<open>x\<close> times the hash of the message plus \<open>r\<close> times
  the adjudicator's key, \<open>mu\<close> is \<open>r\<close> times the generator, the pairing equation holds and
  the verification section does not panic.
\<close>

theorem verify_accepts_encrypted_signature:
  assumes "bilinear L"
    and "ves = Test_encrypt L G (ScalarMultiplication (g2 G) a) (Test_sign L msg x) rel"
    and "r = ToBigInt L rel"
  shows "omega ves = ScalarMultiplication (HashAndMapToSignature L msg) x
                     + ScalarMultiplication (ScalarMultiplication (g2 G) a) r \<and>
         mu ves = ScalarMultiplication (g2 G) r \<and>
         Pair L (g1 G) (omega ves)
           = GTMul L (Pair L (ScalarMultiplication (g1 G) x) (HashAndMapToSignature L msg))
                     (Pair L (ScalarMultiplication (g1 G) a) (mu ves)) \<and>
         Test_verify L G msg (ScalarMultiplication (g1 G) x) (ScalarMultiplication (g1 G) a) ves
           = Inr ves"
  using honest_pairing_equation [OF assms(1), of "g1 G" "HashAndMapToSignature L msg" x "g2 G" a
      "ToBigInt L rel"] assms(2,3)
  by (simp add: Test_verify_def Test_encrypt_def Test_sign_eq Let_def)

theorem verify_accepts_encrypted_signature_witness:
  "bilinear toy \<and>
   Test_encrypt toy toyG (ScalarMultiplication (g2 toyG) 5) (Test_sign toy ''Hi'' 3) 4
     = \<lparr>omega = 14, mu = 1\<rparr> \<and>
   ToBigInt toy 4 = 1 \<and>
   Pair toy (g1 toyG) 14
     = GTMul toy (Pair toy (ScalarMultiplication (g1 toyG) 3) (HashAndMapToSignature toy ''Hi''))
                 (Pair toy (ScalarMultiplication (g1 toyG) 5) 1) \<and>
   Test_verify toy toyG ''Hi'' (ScalarMultiplication (g1 toyG) 3) (ScalarMultiplication (g1 toyG) 5)
     \<lparr>omega = 14, mu = 1\<rparr> = Inr \<lparr>omega = 14, mu = 1\<rparr>"
proof -
  have r: "(1::int) = ToBigInt toy 4" by (simp add: toy_def)
  show ?thesis
    using verify_accepts_encrypted_signature [OF toy_bilinear toy_encrypt [symmetric] r]
      toy_bilinear toy_encrypt r
    by simp
qed

text \<open>
  C2. Adjudication computes \<open>omega - mu \<cdot> adjSKeyInt\<close>, and on an encrypted signature
  made for the adjudicator key \<open>k\<close> this is the plain signature itself, as a point: the
  blinding term cancels, whatever the randomiser.
\<close>

theorem adjudicate_recovers_signature:
  "omega (Test_adjudicate ves k) = omega ves - ScalarMultiplication (mu ves) k \<and>
   omega (Test_adjudicate
            (Test_encrypt L G (ScalarMultiplication (g2 G) k) (Test_sign L msg x) rel) k)
   = Test_sign L msg x"
  by (simp add: Test_adjudicate_def Test_encrypt_def Let_def SM_mult mult.commute)

text \<open>
  C3. The verification section hashes the message to \<open>h\<close> and accepts exactly when
  \<open>e(g1, omega)\<close> equals the product of \<open>e(aPKey, h)\<close> and \<open>e(adjPKeyG1, mu)\<close>: the
  generator and the two public keys are in the first argument of the pairing, \<open>omega\<close>,
  \<open>h\<close> and \<open>mu\<close> in the second. Otherwise it panics.
\<close>

theorem verify_checks_pairing_equation:
  "Test_verify L G msg aPKey adjPKeyG1 ves =
     (if Pair L (g1 G) (omega ves)
         = GTMul L (Pair L aPKey (HashAndMapToSignature L msg)) (Pair L adjPKeyG1 (mu ves))
      then Inr ves else Inl (Panic ''Invalid signature''))"
  by (simp add: Test_verify_def Let_def)

lemma verify_accepts_iff:
  assumes bil: "bilinear L" and nd: "nondegenerate L" and gen: "g1 G \<noteq> 0"
  shows "Test_verify L G msg (ScalarMultiplication (g1 G) x) (ScalarMultiplication (g1 G) a)
           \<lparr>omega = w, mu = m\<rparr>
         = (if w = Test_sign L msg x + ScalarMultiplication m a
            then Inr \<lparr>omega = w, mu = m\<rparr> else Inl (Panic ''Invalid signature''))"
proof -
  have add: "\<And>P A B. Pair L P (A + B) = GTMul L (Pair L P A) (Pair L P B)"
    and move: "\<And>P Q s. Pair L (ScalarMultiplication P s) Q = Pair L P (ScalarMultiplication Q s)"
    using bil by (simp_all add: bilinear_def)
  have inj2: "\<And>P Q Q'. P \<noteq> 0 \<Longrightarrow> Pair L P Q = Pair L P Q' \<Longrightarrow> Q = Q'"
    using nd unfolding nondegenerate_def by blast
  let ?h = "HashAndMapToSignature L msg"
  have rhs: "GTMul L (Pair L (ScalarMultiplication (g1 G) x) ?h)
                     (Pair L (ScalarMultiplication (g1 G) a) m)
             = Pair L (g1 G) (ScalarMultiplication ?h x + ScalarMultiplication m a)"
    by (simp only: add move)
  have "Pair L (g1 G) w = Pair L (g1 G) (ScalarMultiplication ?h x + ScalarMultiplication m a)
        \<longleftrightarrow> w = ScalarMultiplication ?h x + ScalarMultiplication m a"
    using inj2 [OF gen] by blast
  then show ?thesis
    by (simp add: Test_verify_def Let_def rhs Test_sign_eq)
qed

text \<open>
  C5, as amended. In \<^verbatim>\<open>Test\<close> a pairing equation that fails is not a result \<open>false\<close>: the
  routine ends in \<^verbatim>\<open>panic("Invalid signature")\<close>. Under a bilinear and non-degenerate
  pairing, with the generator of the first group not the identity, the verification
  accepts a pair \<open>(omega, mu)\<close> exactly when \<open>omega\<close> is the plain signature plus the
  adjudicator's secret times \<open>mu\<close>, which is the shape of the encrypted signatures the
  blinding section makes; on every other pair it panics, whether \<open>omega\<close>, \<open>mu\<close> or both
  were changed. In particular it panics when \<open>omega\<close> alone is replaced by another
  point, when \<open>mu\<close> alone is replaced (the adjudicator's public key not being the
  identity), when another signer public key is used (the hash of the message not being
  the identity) and when another adjudicator public key is used (\<open>mu\<close> not being the
  identity).
\<close>

theorem tampering_ends_in_panic:
  assumes bil: "bilinear L" and nd: "nondegenerate L"
    and ves: "ves = Test_encrypt L G (ScalarMultiplication (g2 G) a) (Test_sign L msg x) rel"
    and aPKey: "aPKey = ScalarMultiplication (g1 G) x"
    and adjPKeyG1: "adjPKeyG1 = ScalarMultiplication (g1 G) a"
  shows "(g1 G \<noteq> 0 \<longrightarrow>
            Test_verify L G msg aPKey adjPKeyG1 \<lparr>omega = w', mu = m'\<rparr>
            = (if w' = Test_sign L msg x + ScalarMultiplication m' a
               then Inr \<lparr>omega = w', mu = m'\<rparr> else Inl (Panic ''Invalid signature''))) \<and>
         (g1 G \<noteq> 0 \<and> w \<noteq> omega ves \<longrightarrow>
            Test_verify L G msg aPKey adjPKeyG1 (ves\<lparr>omega := w\<rparr>) = Inl (Panic ''Invalid signature'')) \<and>
         (adjPKeyG1 \<noteq> 0 \<and> m \<noteq> mu ves \<longrightarrow>
            Test_verify L G msg aPKey adjPKeyG1 (ves\<lparr>mu := m\<rparr>) = Inl (Panic ''Invalid signature'')) \<and>
         (HashAndMapToSignature L msg \<noteq> 0 \<and> pk \<noteq> aPKey \<longrightarrow>
            Test_verify L G msg pk adjPKeyG1 ves = Inl (Panic ''Invalid signature'')) \<and>
         (mu ves \<noteq> 0 \<and> V \<noteq> adjPKeyG1 \<longrightarrow>
            Test_verify L G msg aPKey V ves = Inl (Panic ''Invalid signature''))"
proof -
  have inj2: "\<And>P Q Q'. P \<noteq> 0 \<Longrightarrow> Pair L P Q = Pair L P Q' \<Longrightarrow> Q = Q'"
    and inj1: "\<And>P P' Q. Q \<noteq> 0 \<Longrightarrow> Pair L P Q = Pair L P' Q \<Longrightarrow> P = P'"
    and cl: "\<And>u v w. GTMul L u v = GTMul L u w \<Longrightarrow> v = w"
    and cr: "\<And>u v w. GTMul L v u = GTMul L w u \<Longrightarrow> v = w"
    using nd unfolding nondegenerate_def by blast+
  note eq = honest_equation [OF bil ves, folded aPKey adjPKeyG1]
  have 0: "Test_verify L G msg aPKey adjPKeyG1 \<lparr>omega = w', mu = m'\<rparr>
            = (if w' = Test_sign L msg x + ScalarMultiplication m' a
               then Inr \<lparr>omega = w', mu = m'\<rparr> else Inl (Panic ''Invalid signature''))"
    if "g1 G \<noteq> 0"
    unfolding aPKey adjPKeyG1 by (rule verify_accepts_iff [OF bil nd that])
  have 1: "Test_verify L G msg aPKey adjPKeyG1 (ves\<lparr>omega := w\<rparr>) = Inl (Panic ''Invalid signature'')"
    if "g1 G \<noteq> 0" "w \<noteq> omega ves"
  proof -
    have "Pair L (g1 G) w \<noteq> Pair L (g1 G) (omega ves)"
      using inj2 [OF that(1)] that(2) by blast
    then show ?thesis using eq by (simp add: Test_verify_def Let_def)
  qed
  have 2: "Test_verify L G msg aPKey adjPKeyG1 (ves\<lparr>mu := m\<rparr>) = Inl (Panic ''Invalid signature'')"
    if "adjPKeyG1 \<noteq> 0" "m \<noteq> mu ves"
  proof -
    have "Pair L adjPKeyG1 m \<noteq> Pair L adjPKeyG1 (mu ves)"
      using inj2 [OF that(1)] that(2) by blast
    then have "GTMul L (Pair L aPKey (HashAndMapToSignature L msg)) (Pair L adjPKeyG1 m)
        \<noteq> GTMul L (Pair L aPKey (HashAndMapToSignature L msg)) (Pair L adjPKeyG1 (mu ves))"
      using cl by blast
    then show ?thesis using eq by (simp add: Test_verify_def Let_def)
  qed
  have 3: "Test_verify L G msg pk adjPKeyG1 ves = Inl (Panic ''Invalid signature'')"
    if "HashAndMapToSignature L msg \<noteq> 0" "pk \<noteq> aPKey"
  proof -
    have "Pair L pk (HashAndMapToSignature L msg) \<noteq> Pair L aPKey (HashAndMapToSignature L msg)"
      using inj1 [OF that(1)] that(2) by blast
    then have "GTMul L (Pair L pk (HashAndMapToSignature L msg)) (Pair L adjPKeyG1 (mu ves))
        \<noteq> GTMul L (Pair L aPKey (HashAndMapToSignature L msg)) (Pair L adjPKeyG1 (mu ves))"
      using cr by blast
    then show ?thesis using eq by (simp add: Test_verify_def Let_def)
  qed
  have 4: "Test_verify L G msg aPKey V ves = Inl (Panic ''Invalid signature'')"
    if "mu ves \<noteq> 0" "V \<noteq> adjPKeyG1"
  proof -
    have "Pair L V (mu ves) \<noteq> Pair L adjPKeyG1 (mu ves)"
      using inj1 [OF that(1)] that(2) by blast
    then have "GTMul L (Pair L aPKey (HashAndMapToSignature L msg)) (Pair L V (mu ves))
        \<noteq> GTMul L (Pair L aPKey (HashAndMapToSignature L msg)) (Pair L adjPKeyG1 (mu ves))"
      using cl by blast
    then show ?thesis using eq by (simp add: Test_verify_def Let_def)
  qed
  from 0 1 2 3 4 show ?thesis by blast
qed

theorem tampering_ends_in_panic_witness:
  "bilinear toy \<and> nondegenerate toy \<and>
   g1 toyG \<noteq> 0 \<and> (15::rat) \<noteq> Test_sign toy ''Hi'' 3 + ScalarMultiplication 2 5 \<and>
   Test_verify toy toyG ''Hi'' 3 5 \<lparr>omega = 15, mu = 2\<rparr> = Inl (Panic ''Invalid signature'') \<and>
   (15::rat) \<noteq> omega \<lparr>omega = 14, mu = 1\<rparr> \<and>
   Test_verify toy toyG ''Hi'' 3 5 (\<lparr>omega = 14, mu = 1\<rparr>\<lparr>omega := 15\<rparr>)
     = Inl (Panic ''Invalid signature'') \<and>
   (5::rat) \<noteq> 0 \<and> (2::rat) \<noteq> mu \<lparr>omega = 14, mu = 1\<rparr> \<and>
   Test_verify toy toyG ''Hi'' 3 5 (\<lparr>omega = 14, mu = 1\<rparr>\<lparr>mu := 2\<rparr>)
     = Inl (Panic ''Invalid signature'') \<and>
   HashAndMapToSignature toy ''Hi'' \<noteq> 0 \<and> (4::rat) \<noteq> 3 \<and>
   Test_verify toy toyG ''Hi'' 4 5 \<lparr>omega = 14, mu = 1\<rparr> = Inl (Panic ''Invalid signature'') \<and>
   mu \<lparr>omega = 14, mu = 1::rat\<rparr> \<noteq> 0 \<and> (6::rat) \<noteq> 5 \<and>
   Test_verify toy toyG ''Hi'' 3 6 \<lparr>omega = 14, mu = 1\<rparr> = Inl (Panic ''Invalid signature'')"
proof -
  have k: "(3::rat) = ScalarMultiplication (g1 toyG) 3" "(5::rat) = ScalarMultiplication (g1 toyG) 5"
    by (simp_all add: toyG_def SM_ring)
  have h: "g1 toyG \<noteq> 0" "HashAndMapToSignature toy ''Hi'' \<noteq> 0"
    "(15::rat) \<noteq> Test_sign toy ''Hi'' 3 + ScalarMultiplication 2 5"
    by (simp_all add: toyG_def toy_def Test_sign_eq SM_ring)
  show ?thesis
    using tampering_ends_in_panic [OF toy_bilinear toy_nondegenerate toy_encrypt [symmetric] k,
        of 15 2 15 2 4 6] toy_bilinear toy_nondegenerate h
    by simp
qed

text \<open>
  The claim as it was stated fails: a changed \<open>omega\<close> does not give the result
  \<open>false\<close>, it makes the routine panic.
\<close>

theorem tampering_claim_counterexample:
  "Test_encrypt toy toyG (ScalarMultiplication (g2 toyG) 5) (Test_sign toy ''Hi'' 3) 4
     = \<lparr>omega = 14, mu = 1\<rparr> \<and>
   Test_verify toy toyG ''Hi'' (ScalarMultiplication (g1 toyG) 3) (ScalarMultiplication (g1 toyG) 5)
     \<lparr>omega = 15, mu = 1\<rparr> = Inl (Panic ''Invalid signature'')"
proof (intro conjI)
  show "Test_encrypt toy toyG (ScalarMultiplication (g2 toyG) 5) (Test_sign toy ''Hi'' 3) 4
     = \<lparr>omega = 14, mu = 1\<rparr>"
    by (rule toy_encrypt)
  show "Test_verify toy toyG ''Hi'' (ScalarMultiplication (g1 toyG) 3)
      (ScalarMultiplication (g1 toyG) 5) \<lparr>omega = 15, mu = 1\<rparr>
      = Inl (Panic ''Invalid signature'')"
    by (simp add: Test_verify_def Let_def toy_def toyG_def SM_ring)
qed

text \<open>
  C8, as amended. The verification section leaves \<open>omega\<close> and \<open>mu\<close> as they are. The
  adjudication section overwrites both: afterwards \<open>mu\<close> holds \<open>mu \<cdot> adjSKeyInt\<close> and
  \<open>omega\<close> holds \<open>omega - mu \<cdot> adjSKeyInt\<close>, the recovered signature.
\<close>

theorem verify_keeps_adjudicate_overwrites:
  "(Test_verify L G msg aPKey adjPKeyG1 ves = Inr ves' \<longrightarrow> ves' = ves) \<and>
   Test_adjudicate ves k
     = \<lparr>omega = omega ves - ScalarMultiplication (mu ves) k,
        mu = ScalarMultiplication (mu ves) k\<rparr>"
  by (auto simp add: Test_verify_def Let_def adjudicate_fields split: if_splits)

theorem verify_keeps_adjudicate_overwrites_witness:
  "Test_verify toy toyG ''Hi'' 3 5 \<lparr>omega = 14, mu = 1\<rparr> = Inr \<lparr>omega = 14, mu = 1\<rparr> \<and>
   Test_adjudicate \<lparr>omega = 14, mu = 1::rat\<rparr> 5 = \<lparr>omega = 9, mu = 5\<rparr>"
  using verify_keeps_adjudicate_overwrites [of toy toyG "''Hi''" 3 5 "\<lparr>omega = 14, mu = 1\<rparr>"
      "\<lparr>omega = 14, mu = 1\<rparr>" 5]
  by (simp add: Test_verify_def Let_def toy_def toyG_def SM_ring)

text \<open>
  The claim as it was stated fails: after adjudication neither variable holds the value
  it held before.
\<close>

theorem immutability_claim_counterexample:
  "Test_encrypt toy toyG (ScalarMultiplication (g2 toyG) 5) (Test_sign toy ''Hi'' 3) 4
     = \<lparr>omega = 14, mu = 1\<rparr> \<and>
   Test_adjudicate \<lparr>omega = 14, mu = 1::rat\<rparr> 5 = \<lparr>omega = 9, mu = 5\<rparr> \<and>
   omega (Test_adjudicate \<lparr>omega = 14, mu = 1::rat\<rparr> 5) \<noteq> omega \<lparr>omega = 14, mu = 1::rat\<rparr> \<and>
   mu (Test_adjudicate \<lparr>omega = 14, mu = 1::rat\<rparr> 5) \<noteq> mu \<lparr>omega = 14, mu = 1::rat\<rparr>"
proof (intro conjI)
  show "Test_encrypt toy toyG (ScalarMultiplication (g2 toyG) 5) (Test_sign toy ''Hi'' 3) 4
     = \<lparr>omega = 14, mu = 1\<rparr>"
    by (rule toy_encrypt)
qed (simp_all add: adjudicate_fields SM_ring)



text \<open>The package variables are initialised as \<open>Init\<close> and \<open>New\<close> initialise them.\<close>

lemma Init_process_pkg:
  assumes "Init_process L P0 = Inr P"
  shows "Init L (pkg P0) = Inr (pkg P)"
  using assms by (auto simp add: Init_process_def Init_def Let_def split: if_splits)

lemma New_process_pkg:
  assumes "New_process L P0 = (r, P)"
  shows "New L (pkg P0) = (r, pkg P)"
  using assms by (auto simp add: New_process_def New_def Let_def split: if_splits)



section \<open>Lagrange interpolation at zero\<close>

lemma basis_remove:
  assumes "finite S" "a \<in> S" "i \<in> S" "i \<noteq> a"
  shows "basis_at_zero S i = a / (a - i) * basis_at_zero (S - {a}) i"
proof -
  have "finite (S - {i})" using assms by simp
  moreover have "a \<in> S - {i}" using assms by simp
  ultimately have "(\<Prod>j\<in>S - {i}. j / (j - i)) = a / (a - i) * (\<Prod>j\<in>S - {i} - {a}. j / (j - i))"
    by (rule prod.remove)
  moreover have "S - {i} - {a} = S - {a} - {i}" by auto
  ultimately show ?thesis by (simp add: basis_at_zero_def)
qed

lemma lagrange_remove_node:
  fixes S :: "'f::field set"
  assumes "finite S" "a \<in> S"
  shows "(\<Sum>i\<in>S. (i - a) * g i * basis_at_zero S i)
         = - a * (\<Sum>i\<in>S - {a}. g i * basis_at_zero (S - {a}) i)"
proof -
  have "(\<Sum>i\<in>S. (i - a) * g i * basis_at_zero S i)
        = (a - a) * g a * basis_at_zero S a + (\<Sum>i\<in>S - {a}. (i - a) * g i * basis_at_zero S i)"
    using assms by (rule sum.remove)
  also have "\<dots> = (\<Sum>i\<in>S - {a}. (i - a) * g i * basis_at_zero S i)"
    by simp
  also have "\<dots> = (\<Sum>i\<in>S - {a}. - a * (g i * basis_at_zero (S - {a}) i))"
  proof (rule sum.cong)
    fix i assume "i \<in> S - {a}"
    then have i: "i \<in> S" "i \<noteq> a" by auto
    then have "a - i \<noteq> 0" by simp
    then have "(i - a) * (a / (a - i)) = - a"
      by (simp add: field_simps)
    then have "(i - a) * g i * (a / (a - i) * basis_at_zero (S - {a}) i)
               = - a * (g i * basis_at_zero (S - {a}) i)"
      by (metis (no_types, lifting) mult.assoc mult.left_commute)
    then show "(i - a) * g i * basis_at_zero S i = - a * (g i * basis_at_zero (S - {a}) i)"
      using basis_remove [OF assms i] by simp
  qed simp
  also have "\<dots> = - a * (\<Sum>i\<in>S - {a}. g i * basis_at_zero (S - {a}) i)"
    by (simp only: sum_distrib_left)
  finally show ?thesis .
qed

lemma lagrange_sum_one:
  fixes S :: "'f::field set"
  assumes "finite S" "S \<noteq> {}"
  shows "(\<Sum>i\<in>S. basis_at_zero S i) = 1"
  using assms
proof (induction "card S" arbitrary: S rule: less_induct)
  case less
  show ?case
  proof (cases "\<exists>a b. a \<in> S \<and> b \<in> S \<and> a \<noteq> b")
    case False
    then obtain a where "S = {a}" using less.prems by blast
    then show ?thesis by (simp add: basis_at_zero_def)
  next
    case True
    then obtain a b where ab: "a \<in> S" "b \<in> S" "a \<noteq> b" by blast
    have ne: "S - {a} \<noteq> {}" "S - {b} \<noteq> {}" using ab by auto
    have lt: "card (S - {a}) < card S" "card (S - {b}) < card S"
      using card_Diff1_less [OF less.prems(1) ab(1)] card_Diff1_less [OF less.prems(1) ab(2)]
      by blast+
    have one_a: "(\<Sum>i\<in>S - {a}. basis_at_zero (S - {a}) i) = 1"
      using less.hyps [OF lt(1)] less.prems ne by simp
    have one_b: "(\<Sum>i\<in>S - {b}. basis_at_zero (S - {b}) i) = 1"
      using less.hyps [OF lt(2)] less.prems ne by simp
    have ra: "(\<Sum>i\<in>S. (i - a) * basis_at_zero S i) = - a"
      using lagrange_remove_node [OF less.prems(1) ab(1), of "\<lambda>_. 1"] one_a by simp
    have rb: "(\<Sum>i\<in>S. (i - b) * basis_at_zero S i) = - b"
      using lagrange_remove_node [OF less.prems(1) ab(2), of "\<lambda>_. 1"] one_b by simp
    have "(\<Sum>i\<in>S. (i - a) * basis_at_zero S i) - (\<Sum>i\<in>S. (i - b) * basis_at_zero S i)
          = (\<Sum>i\<in>S. (b - a) * basis_at_zero S i)"
      by (simp add: sum_subtractf [symmetric] algebra_simps)
    then have "(b - a) * (\<Sum>i\<in>S. basis_at_zero S i) = b - a"
      using ra rb by (simp add: sum_distrib_left)
    then show ?thesis using ab(3) by simp
  qed
qed

lemma lagrange_at_zero:
  fixes S :: "'f::field set"
  assumes "finite S" "length cs \<le> card S"
  shows "(\<Sum>i\<in>S. FrEvaluatePolynomial cs i * basis_at_zero S i) = FrEvaluatePolynomial cs 0"
  using assms
proof (induction cs arbitrary: S)
  case Nil
  show ?case by simp
next
  case (Cons c cs)
  then have "card S \<noteq> 0" by auto
  then have "S \<noteq> {}" by auto
  then obtain a where a: "a \<in> S" by blast
  have fin: "finite (S - {a})" using Cons.prems by simp
  have len: "length cs \<le> card (S - {a})" "length cs \<le> card S"
    using Cons.prems a by simp_all
  have ih1: "(\<Sum>i\<in>S - {a}. FrEvaluatePolynomial cs i * basis_at_zero (S - {a}) i)
             = FrEvaluatePolynomial cs 0"
    by (rule Cons.IH [OF fin len(1)])
  have ih2: "(\<Sum>i\<in>S. FrEvaluatePolynomial cs i * basis_at_zero S i) = FrEvaluatePolynomial cs 0"
    by (rule Cons.IH [OF Cons.prems(1) len(2)])
  have "(\<Sum>i\<in>S. FrEvaluatePolynomial (c # cs) i * basis_at_zero S i)
        = (\<Sum>i\<in>S. c * basis_at_zero S i + ((i - a) * FrEvaluatePolynomial cs i * basis_at_zero S i
             + a * (FrEvaluatePolynomial cs i * basis_at_zero S i)))"
    by (rule sum.cong) (simp_all add: algebra_simps)
  also have "\<dots> = c * (\<Sum>i\<in>S. basis_at_zero S i)
        + ((\<Sum>i\<in>S. (i - a) * FrEvaluatePolynomial cs i * basis_at_zero S i)
        + a * (\<Sum>i\<in>S. FrEvaluatePolynomial cs i * basis_at_zero S i))"
    by (simp only: sum.distrib sum_distrib_left)
  also have "\<dots> = c"
    using lagrange_sum_one [OF Cons.prems(1) \<open>S \<noteq> {}\<close>]
      lagrange_remove_node [OF Cons.prems(1) a, of "FrEvaluatePolynomial cs"] ih1 ih2
    by simp
  finally show ?case by simp
qed

lemma lagrange_coefficient_set:
  assumes "distinct xs" "k < length xs"
  shows "lagrange_coefficient xs k = basis_at_zero (set xs) (xs ! k)"
proof -
  let ?js = "filter (\<lambda>j. j \<noteq> k) [0..<length xs]"
  let ?f = "\<lambda>y. y / (y - xs ! k)"
  have inj: "inj_on ((!) xs) (set ?js)"
    using assms(1) by (auto simp: inj_on_def nth_eq_iff_index_eq)
  have img: "(!) xs ` set ?js = set xs - {xs ! k}"
  proof
    show "(!) xs ` set ?js \<subseteq> set xs - {xs ! k}"
      using assms by (auto simp: nth_eq_iff_index_eq)
    show "set xs - {xs ! k} \<subseteq> (!) xs ` set ?js"
    proof
      fix y assume "y \<in> set xs - {xs ! k}"
      then obtain j where "j < length xs" "xs ! j = y" "y \<noteq> xs ! k"
        by (auto simp: in_set_conv_nth)
      then have "j \<in> set ?js" by auto
      then show "y \<in> (!) xs ` set ?js" using \<open>xs ! j = y\<close> by blast
    qed
  qed
  have "lagrange_coefficient xs k = prod_list (map (\<lambda>j. ?f (xs ! j)) ?js)"
    by (simp add: lagrange_coefficient_def)
  also have "\<dots> = (\<Prod>j\<in>set ?js. ?f (xs ! j))"
    by (rule prod.distinct_set_conv_list [symmetric]) simp
  also have "\<dots> = (\<Prod>y\<in>(!) xs ` set ?js. ?f y)"
    using inj by (simp add: prod.reindex)
  finally show ?thesis by (simp only: img basis_at_zero_def)
qed

lemma sum_list_nth_distinct:
  fixes h :: "'a \<Rightarrow> 'b::comm_monoid_add"
  assumes "distinct xs"
  shows "sum_list (map (\<lambda>i. h (xs ! i)) [0..<length xs]) = sum h (set xs)"
proof -
  have "map (\<lambda>i. h (xs ! i)) [0..<length xs] = map h (map ((!) xs) [0..<length xs])"
    by simp
  also have "\<dots> = map h xs" by (simp only: map_nth)
  finally show ?thesis using assms by (simp add: sum.distinct_set_conv_list)
qed

lemma interpolation_at_zero_list:
  fixes xs :: "'f::field list"
  assumes "distinct xs" "length cs \<le> length xs"
  shows "sum_list (map (\<lambda>i. FrEvaluatePolynomial cs (xs ! i) * lagrange_coefficient xs i)
            [0..<length xs]) = FrEvaluatePolynomial cs 0"
proof -
  let ?h = "\<lambda>y. FrEvaluatePolynomial cs y * basis_at_zero (set xs) y"
  have eq: "map (\<lambda>i. FrEvaluatePolynomial cs (xs ! i) * lagrange_coefficient xs i) [0..<length xs]
      = map (\<lambda>i. ?h (xs ! i)) [0..<length xs]"
    by (rule map_cong) (simp_all add: lagrange_coefficient_set [OF assms(1)])
  have "sum_list (map (\<lambda>i. ?h (xs ! i)) [0..<length xs]) = sum ?h (set xs)"
    by (rule sum_list_nth_distinct [OF assms(1)])
  also have "\<dots> = FrEvaluatePolynomial cs 0"
    using assms by (intro lagrange_at_zero) (simp_all add: distinct_card)
  finally show ?thesis by (simp only: eq)
qed

lemma G2Mul_zero:
  assumes "scalar_action L"
  shows "G2Mul L P 0 = 0"
proof -
  have "G2Mul L P (0 + 0) = G2Mul L P 0 + G2Mul L P 0"
    using assms unfolding scalar_action_def by blast
  then show ?thesis by simp
qed

lemma G2Mul_sum_list:
  assumes "scalar_action L"
  shows "sum_list (map (\<lambda>i. G2Mul L P (t i)) js) = G2Mul L P (sum_list (map t js))"
proof (induction js)
  case Nil
  show ?case by (simp add: G2Mul_zero [OF assms])
next
  case (Cons j js)
  have "G2Mul L P (t j + sum_list (map t js)) = G2Mul L P (t j) + G2Mul L P (sum_list (map t js))"
    using assms unfolding scalar_action_def by blast
  then show ?case using Cons by simp
qed

lemma G2Mul_of_int:
  assumes "scalar_action L"
  shows "G2Mul L P (of_int k) = ScalarMultiplication P k"
proof -
  have add: "\<And>a b. G2Mul L P (a + b) = G2Mul L P a + G2Mul L P b"
    and one: "G2Mul L P 1 = P"
    using assms unfolding scalar_action_def by blast+
  show ?thesis
  proof (induction k rule: int_induct [where k = 0])
    case base
    show ?case by (simp add: SM_zero G2Mul_zero [OF assms])
  next
    case (step1 i)
    have "G2Mul L P (of_int (i + 1)) = G2Mul L P (of_int i) + G2Mul L P 1"
      by (simp add: add)
    then show ?case by (simp only: step1.IH one SM_succ)
  next
    case (step2 i)
    have "G2Mul L P (of_int (i - 1) + 1) = G2Mul L P (of_int (i - 1)) + G2Mul L P 1"
      by (rule add)
    then have "G2Mul L P (of_int (i - 1)) = G2Mul L P (of_int i) - P"
      by (simp add: one algebra_simps)
    then show ?case by (simp only: step2.IH SM_pred)
  qed
qed

lemma interpolation_in_the_exponent:
  fixes xs :: "'f::field list" and L :: "('g1, 'g2::ab_group_add, 'gt, 'f) adapter"
  assumes act: "scalar_action L"
    and xs: "distinct xs" "0 \<notin> set xs" "xs \<noteq> []"
    and len: "length cs \<le> length xs"
  shows "G2LagrangeInterpolation L xs (map (\<lambda>y. G2Mul L P (FrEvaluatePolynomial cs y)) xs)
         = Inr (G2Mul L P (FrEvaluatePolynomial cs 0))"
proof -
  have mul: "\<And>Q a b. G2Mul L (G2Mul L Q a) b = G2Mul L Q (a * b)"
    using act unfolding scalar_action_def by blast
  have "map (\<lambda>i. G2Mul L (map (\<lambda>y. G2Mul L P (FrEvaluatePolynomial cs y)) xs ! i)
                  (lagrange_coefficient xs i)) [0..<length xs]
      = map (\<lambda>i. G2Mul L P (FrEvaluatePolynomial cs (xs ! i) * lagrange_coefficient xs i))
            [0..<length xs]"
    by (rule map_cong) (simp_all add: mul)
  then have "sum_list (map (\<lambda>i. G2Mul L (map (\<lambda>y. G2Mul L P (FrEvaluatePolynomial cs y)) xs ! i)
                  (lagrange_coefficient xs i)) [0..<length xs])
      = G2Mul L P (FrEvaluatePolynomial cs 0)"
    by (simp only: G2Mul_sum_list [OF act] interpolation_at_zero_list [OF xs(1) len])
  then have many: "length xs \<noteq> 1 \<Longrightarrow> ?thesis"
    using xs by (simp add: G2LagrangeInterpolation_def)
  have one: ?thesis if "length xs = 1"
  proof -
    from that obtain x where x: "xs = [x]"
      by (cases xs) simp_all
    have "length cs \<le> 1" using len that by simp
    then have "FrEvaluatePolynomial cs x = FrEvaluatePolynomial cs 0"
      by (cases cs) simp_all
    then show ?thesis
      by (simp add: G2LagrangeInterpolation_def x)
  qed
  from one many show ?thesis by blast
qed

section \<open>Shares and reconstruction\<close>

lemma of_nat_nodes_neq:
  assumes char: "\<forall>k. 0 < k \<and> k \<le> totalShares \<longrightarrow> (of_nat k :: 'f::field) \<noteq> 0"
    and "i < totalShares" "j < totalShares" "i < j"
  shows "(of_nat (i + 1) :: 'f) \<noteq> of_nat (j + 1)"
proof
  assume eq: "(of_nat (i + 1) :: 'f) = of_nat (j + 1)"
  have "j + 1 = (j - i) + (i + 1)" using assms by simp
  then have "(of_nat (j + 1) :: 'f) = of_nat (j - i) + of_nat (i + 1)"
    by (simp only: of_nat_add)
  with eq have "(of_nat (i + 1) :: 'f) = of_nat (j - i) + of_nat (i + 1)"
    by (rule trans)
  then have "(of_nat (j - i) :: 'f) = 0"
    by (simp only: add_cancel_right_left)
  moreover have "0 < j - i \<and> j - i \<le> totalShares" using assms by simp
  ultimately show False using char by blast
qed

lemma of_nat_nodes_distinct:
  fixes sel :: "nat list"
  assumes char: "\<forall>k. 0 < k \<and> k \<le> totalShares \<longrightarrow> (of_nat k :: 'f::field) \<noteq> 0"
    and sel: "distinct sel" "\<forall>i\<in>set sel. i < totalShares"
  shows "distinct (map (\<lambda>i. of_nat (i + 1) :: 'f) sel)"
proof -
  have "inj_on (\<lambda>i. of_nat (i + 1) :: 'f) (set sel)"
  proof (rule inj_onI)
    fix i j assume ij: "i \<in> set sel" "j \<in> set sel"
      and eq: "(of_nat (i + 1) :: 'f) = of_nat (j + 1)"
    have lt: "i < totalShares" "j < totalShares" using sel(2) ij by blast+
    show "i = j"
    proof (rule ccontr)
      assume "i \<noteq> j"
      then consider "i < j" | "j < i" by linarith
      then show False
      proof cases
        case 1
        from of_nat_nodes_neq [OF char lt(1) lt(2) 1] eq show False by (rule notE)
      next
        case 2
        from of_nat_nodes_neq [OF char lt(2) lt(1) 2] eq [symmetric] show False by (rule notE)
      qed
    qed
  qed
  then show ?thesis
    using sel(1) by (simp only: distinct_map simp_thms)
qed

lemma of_nat_nodes_nonzero:
  fixes sel :: "nat list"
  assumes char: "\<forall>k. 0 < k \<and> k \<le> totalShares \<longrightarrow> (of_nat k :: 'f::field) \<noteq> 0"
    and sel: "\<forall>i\<in>set sel. i < totalShares"
  shows "(0::'f) \<notin> set (map (\<lambda>i. of_nat (i + 1)) sel)"
proof
  assume "(0::'f) \<in> set (map (\<lambda>i. of_nat (i + 1)) sel)"
  then have "(0::'f) \<in> (\<lambda>i. of_nat (i + 1)) ` set sel"
    by (simp only: set_map)
  then obtain i where i: "i \<in> set sel" "(0::'f) = of_nat (i + 1)"
    by (rule imageE)
  from sel i(1) have "i < totalShares" by (rule bspec)
  then have range: "0 < i + 1 \<and> i + 1 \<le> totalShares" by arith
  from char have "0 < i + 1 \<and> i + 1 \<le> totalShares \<longrightarrow> (of_nat (i + 1) :: 'f) \<noteq> 0"
    by (rule spec)
  with range have "(of_nat (i + 1) :: 'f) \<noteq> 0" by (rule rev_mp)
  with i(2) [symmetric] show False by (rule rev_notE)
qed

lemma Test_split_shares:
  assumes "0 < minShares"
  shows "Test_split adjsk csprng minShares totalShares
         = Inr (map (\<lambda>i. FrEvaluatePolynomial (adjsk # map csprng [0..<minShares - 1]) (of_nat (i + 1)))
                    [0..<totalShares])"
  using assms by (simp add: Test_split_def)

lemma reconstruct_from_shares:
  fixes L :: "('g1, 'g2::ab_group_add, 'gt, 'f::field) adapter"
  assumes act: "scalar_action L"
    and n: "0 < minShares" "minShares \<le> length sel"
    and sel: "distinct sel" "\<forall>i\<in>set sel. i < totalShares"
    and char: "\<forall>k. 0 < k \<and> k \<le> totalShares \<longrightarrow> (of_nat k :: 'f) \<noteq> 0"
  shows "\<exists>shares res.
           Test_split (of_int adjSKey) csprng minShares totalShares = Inr shares \<and>
           Test_partials L P shares sel = Inr res \<and>
           Test_reconstruct L sel res = Inr (ScalarMultiplication P adjSKey)"
proof -
  let ?cs = "of_int adjSKey # map csprng [0..<minShares - 1]"
  let ?xs = "map (\<lambda>i. of_nat (i + 1) :: 'f) sel"
  let ?shares = "map (\<lambda>i. FrEvaluatePolynomial ?cs (of_nat (i + 1))) [0..<totalShares]"
  let ?res = "map (\<lambda>y. G2Mul L P (FrEvaluatePolynomial ?cs y)) ?xs"
  have shares: "Test_split (of_int adjSKey) csprng minShares totalShares = Inr ?shares"
    by (rule Test_split_shares [OF n(1)])
  have inrange: "\<not> list_ex (\<lambda>i. length ?shares \<le> i) sel"
    using sel(2) by (auto simp: list_ex_iff)
  have res: "map (\<lambda>i. G2Mul L P (?shares ! i)) sel = ?res"
    using sel(2) by (simp add: comp_def)
  have partials: "Test_partials L P ?shares sel = Inr ?res"
    using inrange res by (simp only: Test_partials_def if_False)
  have ne: "?xs \<noteq> []" using n by auto
  have len: "length ?cs \<le> length ?xs" using n by simp
  have "G2LagrangeInterpolation L ?xs ?res = Inr (G2Mul L P (FrEvaluatePolynomial ?cs 0))"
    by (rule interpolation_in_the_exponent [OF act of_nat_nodes_distinct [OF char sel]
          of_nat_nodes_nonzero [OF char sel(2)] ne len])
  then have "Test_reconstruct L sel ?res = Inr (ScalarMultiplication P adjSKey)"
    by (simp add: Test_reconstruct_def G2Mul_of_int [OF act])
  with shares partials show ?thesis by blast
qed

lemma threshold_recovers:
  fixes L :: "('g1, 'g2::ab_group_add, 'gt, 'f::field) adapter"
  assumes act: "scalar_action L"
    and n: "0 < minShares" "minShares \<le> length sel"
    and sel: "distinct sel" "\<forall>i\<in>set sel. i < totalShares"
    and char: "\<forall>k. 0 < k \<and> k \<le> totalShares \<longrightarrow> (of_nat k :: 'f) \<noteq> 0"
  shows "Test_threshold L csprng adjSKey orig minShares totalShares sel
         = Inr (omega orig - ScalarMultiplication (mu orig) adjSKey)"
proof -
  let ?cs = "of_int adjSKey # map csprng [0..<minShares - 1]"
  let ?xs = "map (\<lambda>i. of_nat (i + 1) :: 'f) sel"
  let ?shares = "map (\<lambda>i. FrEvaluatePolynomial ?cs (of_nat (i + 1))) [0..<totalShares]"
  have shares: "Test_split (of_int adjSKey) csprng minShares totalShares = Inr ?shares"
    by (rule Test_split_shares [OF n(1)])
  have inrange: "\<not> list_ex (\<lambda>i. length ?shares \<le> i) sel"
    using sel(2) by (auto simp: list_ex_iff)
  have res: "map (\<lambda>i. G2Mul L (mu orig) (?shares ! i)) sel
             = map (\<lambda>y. G2Mul L (mu orig) (FrEvaluatePolynomial ?cs y)) ?xs"
    using sel(2) by (simp add: comp_def)
  have partials: "Test_partials L (mu orig) ?shares sel
             = Inr (map (\<lambda>y. G2Mul L (mu orig) (FrEvaluatePolynomial ?cs y)) ?xs)"
    using inrange res by (simp only: Test_partials_def if_False)
  have ne: "?xs \<noteq> []" using n by auto
  have len: "length ?cs \<le> length ?xs" using n by simp
  have "G2LagrangeInterpolation L ?xs (map (\<lambda>y. G2Mul L (mu orig) (FrEvaluatePolynomial ?cs y)) ?xs)
        = Inr (G2Mul L (mu orig) (FrEvaluatePolynomial ?cs 0))"
    by (rule interpolation_in_the_exponent [OF act of_nat_nodes_distinct [OF char sel]
          of_nat_nodes_nonzero [OF char sel(2)] ne len])
  then have rec: "Test_reconstruct L sel (map (\<lambda>y. G2Mul L (mu orig) (FrEvaluatePolynomial ?cs y)) ?xs)
        = Inr (ScalarMultiplication (mu orig) adjSKey)"
    by (simp add: Test_reconstruct_def G2Mul_of_int [OF act])
  show ?thesis
    unfolding Test_threshold_def Let_def shares sum.case partials rec ..
qed

text \<open>
  The whole of \<^verbatim>\<open>Test\<close>: the signature recovered from the first three of ten shares is
  the plain signature.
\<close>

lemma Test_recovers_signature:
  fixes L :: "('g1::ab_group_add, 'g2::ab_group_add, 'gt, 'f::field) adapter"
  assumes "bilinear L" "scalar_action L"
    and "\<forall>k. 0 < k \<and> k \<le> 10 \<longrightarrow> (of_nat k :: 'f) \<noteq> 0"
  shows "Test L G aSKey adjSKey rel csprng = Inr (Test_sign L ''Hello, World'' (ToBigInt L aSKey))"
proof -
  have sel: "0 < (3::nat)" "3 \<le> length [0..<3::nat]" "distinct [0..<3::nat]"
    "\<forall>i\<in>set [0..<3::nat]. i < 10"
    by simp_all
  show ?thesis
    unfolding Test_def Test_single_succeeds [OF assms(1)] sum.case prod.case
      threshold_recovers [OF assms(2) sel assms(3)]
    using adjudicate_encrypt [of L G adjSKey "''Hello, World''" "ToBigInt L aSKey" rel]
    by (simp only: adjudicate_fields VESSignature.simps)
qed

text \<open>
  C4. For a threshold \<open>minShares\<close> and \<open>totalShares\<close> shares, take the shares at any
  pairwise different positions \<open>sel\<close>, at least \<open>minShares\<close> of them (not only the first
  ones). The interpolation of the partial results \<open>mu \<cdot> share\<close> at zero is \<open>mu\<close> times the
  adjudicator's secret, and subtracting it from \<open>omega\<close> gives the point that the
  adjudication with the secret itself leaves in \<open>omega\<close>. The share numbers
  \<open>1, \<dots>, totalShares\<close> must be non-zero in the scalar field, as they are for a field
  whose characteristic exceeds \<open>totalShares\<close>.
\<close>

theorem threshold_adjudication_agrees:
  fixes L :: "('g1, 'g2::ab_group_add, 'gt, 'f::field) adapter"
  assumes "scalar_action L"
    and "0 < minShares" and "minShares \<le> length sel"
    and "distinct sel" and "\<forall>i\<in>set sel. i < totalShares"
    and "\<forall>k. 0 < k \<and> k \<le> totalShares \<longrightarrow> (of_nat k :: 'f) \<noteq> 0"
  shows "(\<exists>shares res.
            Test_split (of_int adjSKey) csprng minShares totalShares = Inr shares \<and>
            Test_partials L (mu orig) shares sel = Inr res \<and>
            Test_reconstruct L sel res = Inr (ScalarMultiplication (mu orig) adjSKey)) \<and>
         Test_threshold L csprng adjSKey orig minShares totalShares sel
           = Inr (omega (Test_adjudicate orig adjSKey))"
  using reconstruct_from_shares [OF assms, of adjSKey csprng "mu orig"]
    threshold_recovers [OF assms, of csprng adjSKey orig]
  by (simp only: adjudicate_fields VESSignature.simps simp_thms)

theorem threshold_adjudication_agrees_witness:
  "scalar_action toy \<and> (0::nat) < 2 \<and> 2 \<le> length [3, 1::nat] \<and> distinct [3, 1::nat] \<and>
   (\<exists>shares res.
      Test_split (of_int 5) toy_csprng 2 4 = Inr shares \<and>
      Test_partials toy (mu \<lparr>omega = 14, mu = 1\<rparr>) shares [3, 1] = Inr res \<and>
      Test_reconstruct toy [3, 1] res = Inr (ScalarMultiplication (mu \<lparr>omega = 14, mu = 1\<rparr>) 5)) \<and>
   Test_threshold toy toy_csprng 5 \<lparr>omega = 14, mu = 1\<rparr> 2 4 [3, 1]
     = Inr (omega (Test_adjudicate \<lparr>omega = 14, mu = 1\<rparr> 5))"
proof -
  have h: "(0::nat) < 2" "2 \<le> length [3, 1::nat]" "distinct [3, 1::nat]"
    "\<forall>i\<in>set [3, 1::nat]. i < 4"
    by simp_all
  show ?thesis
    using threshold_adjudication_agrees [OF toy_scalar_action h toy_characteristic,
        of 5 toy_csprng "\<lparr>omega = 14, mu = 1\<rparr>"] toy_scalar_action h
    by simp
qed







text \<open>
  C7. For \<open>1 \<le> minShares\<close> the key polynomial has \<open>minShares\<close> coefficients: the first is
  the adjudicator's secret, the others are the successive values of the random source,
  one call each. There are exactly \<open>totalShares\<close> shares, and share \<open>i\<close>, for \<open>i\<close> from
  \<open>1\<close> to \<open>totalShares\<close>, is the value of the polynomial at \<open>i\<close>. Zero is not among the
  evaluation points, as integers, and as field elements when the numbers up to
  \<open>totalShares\<close> are non-zero in the field.
\<close>

theorem split_evaluates_key_polynomial:
  fixes adjsk :: "'f::field"
  assumes "1 \<le> minShares"
  shows "\<exists>adjKeyPoly shares.
           Test_split adjsk csprng minShares totalShares = Inr shares \<and>
           length adjKeyPoly = minShares \<and>
           hd adjKeyPoly = adjsk \<and>
           tl adjKeyPoly = map csprng [0..<minShares - 1] \<and>
           length shares = totalShares \<and>
           shares = map (\<lambda>i. FrEvaluatePolynomial adjKeyPoly (of_nat i)) [1..<Suc totalShares] \<and>
           (\<forall>i. 1 \<le> i \<and> i \<le> totalShares \<longrightarrow>
                shares ! (i - 1) = FrEvaluatePolynomial adjKeyPoly (of_nat i)) \<and>
           0 \<notin> set [1..<Suc totalShares] \<and>
           ((\<forall>k. 0 < k \<and> k \<le> totalShares \<longrightarrow> (of_nat k :: 'f) \<noteq> 0) \<longrightarrow>
              (0::'f) \<notin> of_nat ` set [1..<Suc totalShares])"
proof -
  let ?P = "adjsk # map csprng [0..<minShares - 1]"
  let ?shares = "map (\<lambda>i. FrEvaluatePolynomial ?P (of_nat (i + 1))) [0..<totalShares]"
  have split: "Test_split adjsk csprng minShares totalShares = Inr ?shares"
    using assms by (intro Test_split_shares) simp
  have shift: "[1..<Suc totalShares] = map (\<lambda>i. i + 1) [0..<totalShares]"
    by (simp add: map_Suc_upt)
  have as_map: "?shares = map (\<lambda>i. FrEvaluatePolynomial ?P (of_nat i)) [1..<Suc totalShares]"
    by (simp only: shift map_map comp_def)
  have nth: "\<forall>i. 1 \<le> i \<and> i \<le> totalShares \<longrightarrow>
      ?shares ! (i - 1) = FrEvaluatePolynomial ?P (of_nat i)"
  proof (intro allI impI)
    fix i assume i: "1 \<le> i \<and> i \<le> totalShares"
    then have "i - 1 < totalShares" "i - 1 + 1 = i" by arith+
    then have "?shares ! (i - 1) = FrEvaluatePolynomial ?P (of_nat (i - 1 + 1))"
      by (simp only: nth_map_upt diff_zero add_0 length_upt nth_map nth_upt)
    then show "?shares ! (i - 1) = FrEvaluatePolynomial ?P (of_nat i)"
      by (simp only: \<open>i - 1 + 1 = i\<close>)
  qed
  have len: "length ?P = minShares" using assms by simp
  have nz: "(\<forall>k. 0 < k \<and> k \<le> totalShares \<longrightarrow> (of_nat k :: 'f) \<noteq> 0) \<longrightarrow>
              (0::'f) \<notin> of_nat ` set [1..<Suc totalShares]"
  proof (intro impI notI)
    assume char: "\<forall>k. 0 < k \<and> k \<le> totalShares \<longrightarrow> (of_nat k :: 'f) \<noteq> 0"
    assume "(0::'f) \<in> of_nat ` set [1..<Suc totalShares]"
    then obtain k where k: "k \<in> set [1..<Suc totalShares]" "(0::'f) = of_nat k"
      by (rule imageE)
    from k(1) have "0 < k \<and> k \<le> totalShares" by auto
    with char have "(of_nat k :: 'f) \<noteq> 0" by blast
    with k(2) [symmetric] show False by (rule rev_notE)
  qed
  have "Test_split adjsk csprng minShares totalShares = Inr ?shares \<and>
           length ?P = minShares \<and>
           hd ?P = adjsk \<and>
           tl ?P = map csprng [0..<minShares - 1] \<and>
           length ?shares = totalShares \<and>
           ?shares = map (\<lambda>i. FrEvaluatePolynomial ?P (of_nat i)) [1..<Suc totalShares] \<and>
           (\<forall>i. 1 \<le> i \<and> i \<le> totalShares \<longrightarrow>
                ?shares ! (i - 1) = FrEvaluatePolynomial ?P (of_nat i)) \<and>
           0 \<notin> set [1..<Suc totalShares] \<and>
           ((\<forall>k. 0 < k \<and> k \<le> totalShares \<longrightarrow> (of_nat k :: 'f) \<noteq> 0) \<longrightarrow>
              (0::'f) \<notin> of_nat ` set [1..<Suc totalShares])"
    using split len as_map nth nz by simp
  then show ?thesis by blast
qed

theorem split_evaluates_key_polynomial_witness:
  "(1::nat) \<le> 3 \<and>
   (\<exists>adjKeyPoly shares.
           Test_split (5::rat) toy_csprng 3 10 = Inr shares \<and>
           length adjKeyPoly = 3 \<and>
           hd adjKeyPoly = 5 \<and>
           tl adjKeyPoly = map toy_csprng [0..<3 - 1] \<and>
           length shares = 10 \<and>
           shares = map (\<lambda>i. FrEvaluatePolynomial adjKeyPoly (of_nat i)) [1..<Suc 10] \<and>
           (\<forall>i. 1 \<le> i \<and> i \<le> 10 \<longrightarrow>
                shares ! (i - 1) = FrEvaluatePolynomial adjKeyPoly (of_nat i)) \<and>
           0 \<notin> set [1..<Suc 10] \<and>
           ((\<forall>k. 0 < k \<and> k \<le> (10::nat) \<longrightarrow> (of_nat k :: rat) \<noteq> 0) \<longrightarrow>
              (0::rat) \<notin> of_nat ` set [1..<Suc 10]))"
proof -
  have h: "(1::nat) \<le> 3" by simp
  from split_evaluates_key_polynomial [OF h, of 5 toy_csprng 10] h
  show ?thesis by blast
qed

section \<open>The exported operations\<close>

text \<open>
  C10. The exported operations \<^verbatim>\<open>Sign\<close>, \<^verbatim>\<open>Verify\<close> and \<^verbatim>\<open>Adjudicate\<close>, as functions of the
  package and as methods of \<^verbatim>\<open>VESS\<close>, do nothing: each returns the unit value and
  leaves the package variables and the receiver as they were.
\<close>

theorem exported_operations_are_noops:
  "Sign G = ((), G) \<and> Verify G = ((), G) \<and> Adjudicate G = ((), G) \<and>
   VESS_Sign v G = ((), v, G) \<and> VESS_Verify v G = ((), v, G) \<and>
   VESS_Adjudicate v G = ((), v, G)"
  by (simp add: Sign_def Verify_def Adjudicate_def VESS_Sign_def VESS_Verify_def
      VESS_Adjudicate_def)

end
